theory Spec2Isabelle
  imports Main "HOL-Library.Sublist"
begin

section \<open>The SplashScreen component of CraftBurgerCo\<close>

text \<open>
  The source is \<^verbatim>\<open>src/components/common/SplashScreen.tsx\<close>: a React component that
  schedules one timer in an effect, and whose timer callback either invokes the
  \<^verbatim>\<open>onComplete\<close> prop, or navigates to \<^verbatim>\<open>redirectTo\<close> and schedules a second timer
  that checks the location, or navigates to \<^verbatim>\<open>/home\<close>; the effect's cleanup clears the
  first timer. The render computes a dark-mode flag.

  The host (browser, router, parent component) is modelled by an explicit state: a clock,
  the table of pending timers, the pathname of the location (the only thing the component
  reads back), the trace of the calls and assignments the component makes on its
  collaborators, and the exceptions that left a timer callback uncaught. The two foreign
  functions the component calls, \<^verbatim>\<open>onComplete\<close> and \<^verbatim>\<open>navigate\<close>, are parameters:
  each may change the pathname and may throw. The host functions \<^verbatim>\<open>setTimeout\<close>,
  \<^verbatim>\<open>clearTimeout\<close> and \<^verbatim>\<open>console.error\<close> and the assignments to the location return
  normally. The life of an instance is its mount, the passing of time, re-renders (which
  run the effect again when one of its dependencies has changed) and its unmount.
\<close>

subsection \<open>Strings\<close>

text \<open>\<^verbatim>\<open>s.replace(/^\//, '')\<close>: one leading slash is removed when there is one.\<close>

fun strip_leading_slash :: "string \<Rightarrow> string" where
  "strip_leading_slash [] = []"
| "strip_leading_slash (c # cs) = (if c = CHR ''/'' then cs else c # cs)"

text \<open>
  \<^verbatim>\<open>s.indexOf(pat)\<close>: the least position at which \<open>pat\<close> occurs in \<open>s\<close>, or \<open>-1\<close>.
  The empty pattern occurs at position 0 of every string.
\<close>

fun indexOf_from :: "nat \<Rightarrow> string \<Rightarrow> string \<Rightarrow> int" where
  "indexOf_from k [] pat = (if pat = [] then int k else - 1)"
| "indexOf_from k (c # cs) pat =
     (if prefix pat (c # cs) then int k else indexOf_from (Suc k) cs pat)"

definition indexOf :: "string \<Rightarrow> string \<Rightarrow> int" where
  "indexOf s pat = indexOf_from 0 s pat"

text \<open>Truthiness of a value of type \<^verbatim>\<open>string | undefined\<close> (or \<^verbatim>\<open>string | null\<close>):
  the missing value and the empty string are falsy.\<close>

fun truthy :: "string option \<Rightarrow> bool" where
  "truthy None = False"
| "truthy (Some s) = (s \<noteq> [])"

subsection \<open>Props, foreign functions, effects\<close>

text \<open>A thrown value is represented by its message.\<close>

type_synonym exn = string

text \<open>
  A foreign call maps the pathname it finds to the exception it throws, if any, and the
  pathname it leaves.
\<close>

type_synonym foreign = "string \<Rightarrow> exn option \<times> string"

type_synonym navigator = "string \<Rightarrow> foreign"

record props =
  onComplete :: "foreign option"
  redirectTo :: "string option"

datatype effect =
    Invoke_onComplete
  | Navigate string
  | Assign_href string
  | Assign_hash string
  | Console_error string exn

text \<open>The two closures handed to \<^verbatim>\<open>setTimeout\<close>, with what they capture.\<close>

datatype task =
    Outer props navigator
  | Inner string

type_synonym timer = "nat \<times> nat \<times> task"

record state =
  now :: nat
  next_id :: nat
  timers :: "timer list"
  pathname :: string
  trace :: "effect list"
  uncaught :: "exn list"

definition boot :: "nat \<Rightarrow> string \<Rightarrow> state" where
  "boot t0 pn =
     \<lparr>now = t0, next_id = 0, timers = [], pathname = pn, trace = [], uncaught = []\<rparr>"

subsection \<open>Host primitives\<close>

definition set_timeout :: "task \<Rightarrow> nat \<Rightarrow> state \<Rightarrow> nat \<times> state" where
  "set_timeout cb delay st =
     (next_id st,
      st\<lparr>next_id := Suc (next_id st),
         timers := timers st @ [(next_id st, now st + delay, cb)]\<rparr>)"

definition clear_timeout :: "nat \<Rightarrow> state \<Rightarrow> state" where
  "clear_timeout h st = st\<lparr>timers := filter (\<lambda>u. fst u \<noteq> h) (timers st)\<rparr>"

definition emit :: "effect \<Rightarrow> state \<Rightarrow> state" where
  "emit e st = st\<lparr>trace := trace st @ [e]\<rparr>"

definition call :: "foreign \<Rightarrow> state \<Rightarrow> exn option \<times> state" where
  "call f st = (case f (pathname st) of (r, pn) \<Rightarrow> (r, st\<lparr>pathname := pn\<rparr>))"

text \<open>\<^verbatim>\<open>try { body } catch (error) { handler }\<close>\<close>

definition try_catch ::
  "(state \<Rightarrow> exn option \<times> state) \<Rightarrow> (exn \<Rightarrow> state \<Rightarrow> exn option \<times> state) \<Rightarrow>
   state \<Rightarrow> exn option \<times> state" where
  "try_catch body handler st =
     (case body st of
        (None, st') \<Rightarrow> (None, st')
      | (Some e, st') \<Rightarrow> handler e st')"

subsection \<open>The timer callbacks\<close>

text \<open>The callback of the inner \<^verbatim>\<open>setTimeout(..., 300)\<close>.\<close>

definition fallback_check :: "string \<Rightarrow> state \<Rightarrow> exn option \<times> state" where
  "fallback_check cleanPath st =
     (if indexOf (pathname st) cleanPath = - 1
      then (None, emit (Assign_href (''#/'' @ cleanPath)) st)
      else (None, st))"

text \<open>The \<^verbatim>\<open>else\<close> branch: \<^verbatim>\<open>navigate('/home')\<close>.\<close>

definition navigate_home :: "navigator \<Rightarrow> state \<Rightarrow> exn option \<times> state" where
  "navigate_home nav st = call (nav ''/home'') (emit (Navigate ''/home'') st)"

text \<open>The \<^verbatim>\<open>else if (redirectTo)\<close> branch.\<close>

definition redirect :: "navigator \<Rightarrow> string \<Rightarrow> state \<Rightarrow> exn option \<times> state" where
  "redirect nav r st =
     (let cleanPath = strip_leading_slash r in
      case call (nav cleanPath) (emit (Navigate cleanPath) st) of
        (Some e, st') \<Rightarrow> (Some e, st')
      | (None, st') \<Rightarrow> (None, snd (set_timeout (Inner cleanPath) 300 st')))"

text \<open>The body of the \<^verbatim>\<open>try\<close> block.\<close>

definition timer_body :: "props \<Rightarrow> navigator \<Rightarrow> state \<Rightarrow> exn option \<times> state" where
  "timer_body p nav st =
     (case onComplete p of
        Some f \<Rightarrow> call f (emit Invoke_onComplete st)
      | None \<Rightarrow>
          (if truthy (redirectTo p)
           then (case redirectTo p of
                   Some r \<Rightarrow> redirect nav r st
                 | None \<Rightarrow> navigate_home nav st)
           else navigate_home nav st))"

text \<open>The \<^verbatim>\<open>catch\<close> block.\<close>

definition catch_handler :: "exn \<Rightarrow> state \<Rightarrow> exn option \<times> state" where
  "catch_handler e st =
     (None,
      emit (Assign_hash ''#/home'')
        (emit (Console_error ''Navigation error in SplashScreen'' e) st))"

text \<open>The callback of the outer \<^verbatim>\<open>setTimeout(..., 1500)\<close>.\<close>

definition timer_callback :: "props \<Rightarrow> navigator \<Rightarrow> state \<Rightarrow> exn option \<times> state" where
  "timer_callback p nav = try_catch (timer_body p nav) catch_handler"

fun run_task :: "task \<Rightarrow> state \<Rightarrow> exn option \<times> state" where
  "run_task (Outer p nav) st = timer_callback p nav st"
| "run_task (Inner cleanPath) st = fallback_check cleanPath st"

subsection \<open>The effect and its cleanup\<close>

text \<open>
  \<open>mount\<close> is one run of the effect: the first one, and every later one that the
  dependency array asks for (see \<open>rerender\<close> below). \<open>unmount\<close> is the cleanup that
  the run returned. An instance keeps what the effect's closure keeps: the handle
  \<^verbatim>\<open>timer\<close> that the cleanup \<^verbatim>\<open>() => clearTimeout(timer)\<close> refers to.
\<close>

record splash_instance =
  inst_props :: props
  inst_navigate :: navigator
  inst_timer :: nat

definition mount :: "props \<Rightarrow> navigator \<Rightarrow> state \<Rightarrow> splash_instance \<times> state" where
  "mount p nav st =
     (case set_timeout (Outer p nav) 1500 st of
        (h, st') \<Rightarrow> (\<lparr>inst_props = p, inst_navigate = nav, inst_timer = h\<rparr>, st'))"

definition unmount :: "splash_instance \<Rightarrow> state \<Rightarrow> state" where
  "unmount inst st = clear_timeout (inst_timer inst) st"

subsection \<open>Re-renders and the dependency array\<close>

text \<open>
  The effect is declared with the dependency array \<^verbatim>\<open>[onComplete, redirectTo, navigate]\<close>.
  At every later render React compares the array with the one of the previous render,
  entry by entry with \<^verbatim>\<open>Object.is\<close>; when an entry differs it runs the cleanup of the
  last run of the effect and then the effect again, which arms a new 1500-unit timer.
  Strings are compared by value, a function object by its identity, which is not its
  behaviour: an inline \<^verbatim>\<open>onComplete\<close> is a new object at every render of the parent, and
  \<^verbatim>\<open>useNavigate\<close> returns a new function when the route has changed. A render therefore
  comes with the identities of the two function objects it is given.
\<close>

record identities =
  id_onComplete :: nat
  id_navigate :: nat

type_synonym deps = "nat option \<times> string option \<times> nat"

definition deps_of :: "identities \<Rightarrow> props \<Rightarrow> deps" where
  "deps_of ids p =
     (case onComplete p of None \<Rightarrow> None | Some f \<Rightarrow> Some (id_onComplete ids),
      redirectTo p,
      id_navigate ids)"

text \<open>What React keeps of a mounted component: the instance and the array of its last run.\<close>

record fiber =
  fiber_instance :: splash_instance
  fiber_deps :: deps

definition first_render ::
  "identities \<Rightarrow> props \<Rightarrow> navigator \<Rightarrow> state \<Rightarrow> fiber \<times> state" where
  "first_render ids p nav st =
     (case mount p nav st of
        (inst, st') \<Rightarrow> (\<lparr>fiber_instance = inst, fiber_deps = deps_of ids p\<rparr>, st'))"

definition rerender ::
  "identities \<Rightarrow> props \<Rightarrow> navigator \<Rightarrow> fiber \<Rightarrow> state \<Rightarrow> fiber \<times> state" where
  "rerender ids p nav fb st =
     (if deps_of ids p = fiber_deps fb then (fb, st)
      else (case mount p nav (unmount (fiber_instance fb) st) of
              (inst, st') \<Rightarrow> (\<lparr>fiber_instance = inst, fiber_deps = deps_of ids p\<rparr>, st')))"

subsection \<open>The event loop\<close>

text \<open>
  Among the timers that are due at or before the limit, the one with the least due time
  runs first; of two with the same due time, the one scheduled first.
\<close>

fun earliest :: "timer list \<Rightarrow> timer option" where
  "earliest [] = None"
| "earliest (t # ts) =
     (case earliest ts of
        None \<Rightarrow> Some t
      | Some u \<Rightarrow> if fst (snd t) \<le> fst (snd u) then Some t else Some u)"

definition next_due :: "nat \<Rightarrow> timer list \<Rightarrow> timer option" where
  "next_due limit ts = earliest (filter (\<lambda>t. fst (snd t) \<le> limit) ts)"

text \<open>
  Firing a timer removes it from the table, moves the clock to its due time and runs its
  callback; an exception that leaves the callback is recorded as uncaught.
\<close>

definition fire :: "timer \<Rightarrow> state \<Rightarrow> state" where
  "fire t st =
     (case run_task (snd (snd t))
             (st\<lparr>now := max (now st) (fst (snd t)),
                timers := filter (\<lambda>u. fst u \<noteq> fst t) (timers st)\<rparr>) of
        (None, st') \<Rightarrow> st'
      | (Some e, st') \<Rightarrow> st'\<lparr>uncaught := uncaught st' @ [e]\<rparr>)"

fun weight :: "task \<Rightarrow> nat" where
  "weight (Outer p nav) = 2"
| "weight (Inner cleanPath) = 1"

definition pending_weight :: "timer list \<Rightarrow> nat" where
  "pending_weight ts = sum_list (map (\<lambda>t. weight (snd (snd t))) ts)"

lemma earliest_mem: "earliest ts = Some t \<Longrightarrow> t \<in> set ts"
  by (induction ts arbitrary: t) (auto split: option.splits if_splits)

lemma next_due_mem: "next_due limit ts = Some t \<Longrightarrow> t \<in> set ts"
  unfolding next_due_def by (drule earliest_mem) simp

lemma pending_weight_filter: "pending_weight (filter P ts) \<le> pending_weight ts"
  unfolding pending_weight_def by (induction ts) auto

lemma pending_weight_remove:
  "t \<in> set ts \<Longrightarrow>
   pending_weight (filter (\<lambda>u. fst u \<noteq> fst t) ts) + weight (snd (snd t)) \<le> pending_weight ts"
proof (induction ts)
  case Nil
  then show ?case by simp
next
  case (Cons u ts)
  have le: "pending_weight (filter (\<lambda>u. fst u \<noteq> fst t) ts) \<le> pending_weight ts"
    by (rule pending_weight_filter)
  have cons: "\<And>v vs. pending_weight (v # vs) = weight (snd (snd v)) + pending_weight vs"
    by (simp add: pending_weight_def)
  show ?case
  proof (cases "u = t")
    case True
    then show ?thesis using le by (simp add: cons)
  next
    case False
    with Cons have "pending_weight (filter (\<lambda>u. fst u \<noteq> fst t) ts) + weight (snd (snd t))
        \<le> pending_weight ts" by simp
    then show ?thesis using le by (simp add: cons)
  qed
qed

lemma timers_emit [simp]: "timers (emit e st) = timers st"
  by (simp add: emit_def)

lemma timers_call [simp]: "timers (snd (call f st)) = timers st"
  by (simp add: call_def split: prod.splits)

lemma timers_fallback_check: "timers (snd (fallback_check cp st)) = timers st"
  by (simp add: fallback_check_def)

lemma timers_navigate_home: "timers (snd (navigate_home nav st)) = timers st"
  by (simp add: navigate_home_def)

lemma pending_weight_redirect:
  "pending_weight (timers (snd (redirect nav r st))) \<le> pending_weight (timers st) + 1"
proof -
  let ?st1 = "emit (Navigate (strip_leading_slash r)) st"
  obtain x st' where c: "call (nav (strip_leading_slash r)) ?st1 = (x, st')"
    by (cases "call (nav (strip_leading_slash r)) ?st1")
  have t: "timers st' = timers st"
    using timers_call [of "nav (strip_leading_slash r)" ?st1] c by simp
  show ?thesis
    using c t by (cases x) (simp_all add: redirect_def set_timeout_def pending_weight_def)
qed

lemma pending_weight_timer_body:
  "pending_weight (timers (snd (timer_body p nav st))) \<le> pending_weight (timers st) + 1"
proof (cases "onComplete p")
  case (Some f)
  then show ?thesis by (simp add: timer_body_def)
next
  case None
  then show ?thesis
    using pending_weight_redirect [of nav _ st]
    by (simp add: timer_body_def timers_navigate_home split: option.splits)
qed

lemma pending_weight_timer_callback:
  "pending_weight (timers (snd (timer_callback p nav st))) \<le> pending_weight (timers st) + 1"
proof -
  obtain x st' where b: "timer_body p nav st = (x, st')"
    by (cases "timer_body p nav st")
  have "pending_weight (timers st') \<le> pending_weight (timers st) + 1"
    using pending_weight_timer_body [of p nav st] b by simp
  then show ?thesis
    using b by (cases x) (simp_all add: timer_callback_def try_catch_def catch_handler_def)
qed

lemma pending_weight_run_task:
  "pending_weight (timers (snd (run_task cb st))) + 1 \<le> pending_weight (timers st) + weight cb"
proof (cases cb)
  case (Outer p nav)
  then show ?thesis using pending_weight_timer_callback [of p nav st] by simp
next
  case (Inner cp)
  then show ?thesis by (simp add: timers_fallback_check)
qed

lemma pending_weight_fire:
  fixes st :: state
  assumes "t \<in> set (timers st)"
  shows "pending_weight (timers (fire t st)) < pending_weight (timers st)"
proof -
  let ?st1 = "st\<lparr>now := max (now st) (fst (snd t)),
                 timers := filter (\<lambda>u. fst u \<noteq> fst t) (timers st)\<rparr>"
  obtain x st' where r: "run_task (snd (snd t)) ?st1 = (x, st')"
    by (cases "run_task (snd (snd t)) ?st1")
  have f: "timers (fire t st) = timers st'"
    using r by (cases x) (simp_all add: fire_def)
  have "pending_weight (timers st') + 1 \<le> pending_weight (timers ?st1) + weight (snd (snd t))"
    using pending_weight_run_task [of "snd (snd t)" ?st1] r by simp
  moreover have "pending_weight (timers ?st1) + weight (snd (snd t)) \<le> pending_weight (timers st)"
    using pending_weight_remove [OF assms] by simp
  ultimately show ?thesis using f by simp
qed

text \<open>
  Run every timer that is due at or before the limit, in order, including those that the
  callbacks schedule on the way; then let the clock reach the limit.
\<close>

function advance_to :: "nat \<Rightarrow> state \<Rightarrow> state" where
  "advance_to limit st =
     (case next_due limit (timers st) of
        None \<Rightarrow> st\<lparr>now := max (now st) limit\<rparr>
      | Some t \<Rightarrow> advance_to limit (fire t st))"
  by pat_completeness auto
termination
proof (relation "measure (\<lambda>(limit, st). pending_weight (timers st))")
  show "wf (measure (\<lambda>(limit, st). pending_weight (timers st)))" by simp
next
  fix limit :: nat and st :: state and t :: timer
  assume "next_due limit (timers st) = Some t"
  then have "t \<in> set (timers st)" by (rule next_due_mem)
  then show "((limit, fire t st), (limit, st)) \<in> measure (\<lambda>(limit, st). pending_weight (timers st))"
    using pending_weight_fire by simp
qed

declare advance_to.simps [simp del]

definition advance :: "nat \<Rightarrow> state \<Rightarrow> state" where
  "advance d st = advance_to (now st + d) st"

text \<open>The environment changes the location between two events.\<close>

definition relocate :: "string \<Rightarrow> state \<Rightarrow> state" where
  "relocate pn st = st\<lparr>pathname := pn\<rparr>"

subsection \<open>The dark-mode flag\<close>

text \<open>
  What the render reads: whether the root element has the class \<^verbatim>\<open>dark\<close>, the value of
  \<^verbatim>\<open>localStorage.getItem('theme')\<close> (\<^verbatim>\<open>null\<close> when the key is absent), and whether the
  media query \<^verbatim>\<open>(prefers-color-scheme: dark)\<close> matches. Where \<^verbatim>\<open>window\<close> is undefined
  there is no browser.
\<close>

record browser =
  root_has_dark :: bool
  stored_theme :: "string option"
  prefers_dark :: bool

definition isDarkMode :: "browser option \<Rightarrow> bool" where
  "isDarkMode w =
     (case w of
        None \<Rightarrow> False
      | Some b \<Rightarrow> root_has_dark b \<or> (\<not> truthy (stored_theme b) \<and> prefers_dark b))"

subsection \<open>Observations on a trace\<close>

fun navigate_requests :: "effect list \<Rightarrow> string list" where
  "navigate_requests [] = []"
| "navigate_requests (Navigate p # es) = p # navigate_requests es"
| "navigate_requests (e # es) = navigate_requests es"

fun href_assignments :: "effect list \<Rightarrow> string list" where
  "href_assignments [] = []"
| "href_assignments (Assign_href v # es) = v # href_assignments es"
| "href_assignments (e # es) = href_assignments es"

fun hash_assignments :: "effect list \<Rightarrow> string list" where
  "hash_assignments [] = []"
| "hash_assignments (Assign_hash v # es) = v # hash_assignments es"
| "hash_assignments (e # es) = hash_assignments es"

fun log_entries :: "effect list \<Rightarrow> (string \<times> exn) list" where
  "log_entries [] = []"
| "log_entries (Console_error m x # es) = (m, x) # log_entries es"
| "log_entries (e # es) = log_entries es"

fun callback_invocations :: "effect list \<Rightarrow> nat" where
  "callback_invocations [] = 0"
| "callback_invocations (Invoke_onComplete # es) = Suc (callback_invocations es)"
| "callback_invocations (e # es) = callback_invocations es"

subsection \<open>Scenarios\<close>

text \<open>
  The state in which the outer callback starts when the instance was mounted at time
  \<open>t0\<close> in a freshly booted host and nothing else happened before the timer expired.
\<close>

definition at_expiry :: "nat \<Rightarrow> string \<Rightarrow> state" where
  "at_expiry t0 pn =
     \<lparr>now = t0 + 1500, next_id = 1, timers = [], pathname = pn, trace = [], uncaught = []\<rparr>"

text \<open>A navigation service that returns and leaves the pathname alone, and one that throws.\<close>

definition steady_navigate :: navigator where
  "steady_navigate p pn = (None, pn)"

definition failing_navigate :: navigator where
  "failing_navigate p pn = (Some ''no router'', pn)"

text \<open>A callback that returns and leaves the pathname alone, and one that throws.\<close>

definition quiet_callback :: foreign where
  "quiet_callback pn = (None, pn)"

definition failing_callback :: foreign where
  "failing_callback pn = (Some ''callback failed'', pn)"

section \<open>Basic facts\<close>

lemma indexOf_from_sublist: "indexOf_from k s pat = - 1 \<longleftrightarrow> \<not> sublist pat s"
  by (induction s arbitrary: k) (auto simp: sublist_Cons_right)

lemma indexOf_sublist: "indexOf s pat = - 1 \<longleftrightarrow> \<not> sublist pat s"
  by (simp add: indexOf_def indexOf_from_sublist)

lemma advance_to_idle:
  "next_due limit (timers st) = None \<Longrightarrow> advance_to limit st = st\<lparr>now := max (now st) limit\<rparr>"
  by (subst advance_to.simps) simp

lemma advance_to_fire:
  "next_due limit (timers st) = Some t \<Longrightarrow> advance_to limit st = advance_to limit (fire t st)"
  by (subst advance_to.simps) simp

lemma next_due_Nil [simp]: "next_due limit [] = None"
  by (simp add: next_due_def)

lemma next_due_single [simp]:
  "next_due limit [t] = (if fst (snd t) \<le> limit then Some t else None)"
  by (simp add: next_due_def)

lemma timer_callback_caught: "fst (timer_callback p nav st) = None"
  by (simp add: timer_callback_def try_catch_def catch_handler_def split: prod.splits option.splits)

lemma fire_Outer:
  "fire (h, due, Outer p nav) st =
     snd (timer_callback p nav
            (st\<lparr>now := max (now st) due, timers := filter (\<lambda>u. fst u \<noteq> h) (timers st)\<rparr>))"
proof -
  let ?st1 = "st\<lparr>now := max (now st) due, timers := filter (\<lambda>u. fst u \<noteq> h) (timers st)\<rparr>"
  obtain x st' where r: "timer_callback p nav ?st1 = (x, st')"
    by (cases "timer_callback p nav ?st1")
  have "x = None" using timer_callback_caught [of p nav ?st1] r by simp
  then show ?thesis using r by (simp add: fire_def)
qed

lemma fire_Inner:
  "fire (h, due, Inner cp) st =
     snd (fallback_check cp
            (st\<lparr>now := max (now st) due, timers := filter (\<lambda>u. fst u \<noteq> h) (timers st)\<rparr>))"
  by (simp add: fire_def fallback_check_def)

lemma mount_boot:
  "mount p nav (boot t0 pn) =
     (\<lparr>inst_props = p, inst_navigate = nav, inst_timer = 0\<rparr>,
      \<lparr>now = t0, next_id = 1, timers = [(0, t0 + 1500, Outer p nav)], pathname = pn,
        trace = [], uncaught = []\<rparr>)"
  by (simp add: mount_def set_timeout_def boot_def)

lemma advance_past_expiry:
  "advance (1500 + d) (snd (mount p nav (boot t0 pn))) =
     advance_to (t0 + 1500 + d) (snd (timer_callback p nav (at_expiry t0 pn)))"
  by (simp add: mount_boot advance_def advance_to_fire [where t = "(0, t0 + 1500, Outer p nav)"]
      fire_Outer at_expiry_def add.assoc)

lemma advance_before_expiry:
  "d < 1500 \<Longrightarrow> advance d (snd (mount p nav (boot t0 pn))) =
     (snd (mount p nav (boot t0 pn)))\<lparr>now := t0 + d\<rparr>"
  by (simp add: mount_boot advance_def advance_to_idle)

lemma advance_no_timers: "timers st = [] \<Longrightarrow> advance d st = st\<lparr>now := now st + d\<rparr>"
  by (simp add: advance_def advance_to_idle)

lemma advance_zero_past: "advance 1500 st = advance (1500 + 0) st"
  by simp

subsection \<open>What the outer callback does, branch by branch\<close>

lemma timer_callback_onComplete:
  "timer_callback \<lparr>onComplete = Some f, redirectTo = r\<rparr> nav st =
     (case f (pathname st) of
        (None, pn1) \<Rightarrow> (None, st\<lparr>pathname := pn1, trace := trace st @ [Invoke_onComplete]\<rparr>)
      | (Some e, pn1) \<Rightarrow>
          (None, st\<lparr>pathname := pn1,
                    trace := trace st @ [Invoke_onComplete,
                      Console_error ''Navigation error in SplashScreen'' e,
                      Assign_hash ''#/home'']\<rparr>))"
  by (simp add: timer_callback_def try_catch_def timer_body_def call_def emit_def
      catch_handler_def split: prod.splits option.splits)

lemma timer_callback_home:
  "\<not> truthy r \<Longrightarrow>
   timer_callback \<lparr>onComplete = None, redirectTo = r\<rparr> nav st =
     (case nav ''/home'' (pathname st) of
        (None, pn1) \<Rightarrow> (None, st\<lparr>pathname := pn1, trace := trace st @ [Navigate ''/home'']\<rparr>)
      | (Some e, pn1) \<Rightarrow>
          (None, st\<lparr>pathname := pn1,
                    trace := trace st @ [Navigate ''/home'',
                      Console_error ''Navigation error in SplashScreen'' e,
                      Assign_hash ''#/home'']\<rparr>))"
  by (simp add: timer_callback_def try_catch_def timer_body_def navigate_home_def call_def
      emit_def catch_handler_def split: prod.splits option.splits)

lemma timer_callback_redirect:
  "r \<noteq> [] \<Longrightarrow>
   timer_callback \<lparr>onComplete = None, redirectTo = Some r\<rparr> nav st =
     (case nav (strip_leading_slash r) (pathname st) of
        (None, pn1) \<Rightarrow>
          (None, st\<lparr>pathname := pn1,
                    trace := trace st @ [Navigate (strip_leading_slash r)],
                    next_id := Suc (next_id st),
                    timers := timers st @
                      [(next_id st, now st + 300, Inner (strip_leading_slash r))]\<rparr>)
      | (Some e, pn1) \<Rightarrow>
          (None, st\<lparr>pathname := pn1,
                    trace := trace st @ [Navigate (strip_leading_slash r),
                      Console_error ''Navigation error in SplashScreen'' e,
                      Assign_hash ''#/home'']\<rparr>))"
  by (simp add: timer_callback_def try_catch_def timer_body_def redirect_def call_def
      emit_def catch_handler_def set_timeout_def Let_def split: prod.splits option.splits)

text \<open>The host when the clock shows the expiry of the outer timer, in the redirect branch.\<close>

lemma redirect_at_expiry:
  assumes "r \<noteq> []"
  shows "advance 1500 (snd (mount \<lparr>onComplete = None, redirectTo = Some r\<rparr> nav (boot t0 pn))) =
     (case nav (strip_leading_slash r) pn of
        (None, pn1) \<Rightarrow>
          \<lparr>now = t0 + 1500, next_id = 2,
            timers = [(1, t0 + 1800, Inner (strip_leading_slash r))],
            pathname = pn1, trace = [Navigate (strip_leading_slash r)], uncaught = []\<rparr>
      | (Some e, pn1) \<Rightarrow>
          \<lparr>now = t0 + 1500, next_id = 1, timers = [],
            pathname = pn1,
            trace = [Navigate (strip_leading_slash r),
                     Console_error ''Navigation error in SplashScreen'' e,
                     Assign_hash ''#/home''], uncaught = []\<rparr>)"
proof -
  obtain x pn1 where c: "nav (strip_leading_slash r) pn = (x, pn1)"
    by (cases "nav (strip_leading_slash r) pn")
  show ?thesis
    unfolding advance_zero_past advance_past_expiry
    using c assms by (cases x)
      (simp_all add: timer_callback_redirect at_expiry_def advance_to_idle)
qed

text \<open>A host whose only pending timer is the fallback check, \<open>d\<close> time units later.\<close>

lemma inner_pending:
  "due = t + 300 \<Longrightarrow>
   advance d \<lparr>now = t, next_id = n, timers = [(h, due, Inner cp)], pathname = pn',
      trace = tr, uncaught = u\<rparr> =
   (if 300 \<le> d
    then \<lparr>now = t + d, next_id = n, timers = [], pathname = pn',
           trace = (if sublist cp pn' then tr else tr @ [Assign_href (''#/'' @ cp)]),
           uncaught = u\<rparr>
    else \<lparr>now = t + d, next_id = n, timers = [(h, due, Inner cp)], pathname = pn',
           trace = tr, uncaught = u\<rparr>)"
  by (simp add: advance_def advance_to_idle advance_to_fire [where t = "(h, t + 300, Inner cp)"]
      fire_Inner fallback_check_def indexOf_sublist emit_def)

subsection \<open>The try block and the catch block\<close>

lemma log_entries_append [simp]: "log_entries (xs @ ys) = log_entries xs @ log_entries ys"
  by (induction xs rule: log_entries.induct) simp_all

lemma hash_assignments_append [simp]:
  "hash_assignments (xs @ ys) = hash_assignments xs @ hash_assignments ys"
  by (induction xs rule: hash_assignments.induct) simp_all

text \<open>Whatever the guarded body is, an exception that leaves it ends in the catch block.\<close>

lemma try_catch_catches:
  "body st = (Some e, st1) \<Longrightarrow>
   try_catch body catch_handler st =
     (None, emit (Assign_hash ''#/home'')
              (emit (Console_error ''Navigation error in SplashScreen'' e) st1))"
  by (simp add: try_catch_def catch_handler_def)

text \<open>The try block itself writes no log entry and assigns no fragment.\<close>

lemma timer_body_quiet:
  "timer_body p nav st = (x, st1) \<Longrightarrow>
   log_entries (trace st1) = log_entries (trace st) \<and>
   hash_assignments (trace st1) = hash_assignments (trace st) \<and>
   uncaught st1 = uncaught st"
  by (auto simp: timer_body_def redirect_def navigate_home_def call_def emit_def
      set_timeout_def Let_def split: option.splits prod.splits if_splits)

lemma uncaught_timer_callback: "uncaught (snd (timer_callback p nav st)) = uncaught st"
proof -
  obtain x st1 where b: "timer_body p nav st = (x, st1)" by (cases "timer_body p nav st")
  then have "uncaught st1 = uncaught st" by (simp add: timer_body_quiet)
  then show ?thesis
    using b by (cases x) (simp_all add: timer_callback_def try_catch_def catch_handler_def emit_def)
qed

subsection \<open>One run of the effect, and the next\<close>

lemma navigate_requests_append [simp]:
  "navigate_requests (xs @ ys) = navigate_requests xs @ navigate_requests ys"
  by (induction xs rule: navigate_requests.induct) simp_all

lemma href_assignments_append [simp]:
  "href_assignments (xs @ ys) = href_assignments xs @ href_assignments ys"
  by (induction xs rule: href_assignments.induct) simp_all

lemma callback_invocations_append [simp]:
  "callback_invocations (xs @ ys) = callback_invocations xs + callback_invocations ys"
  by (induction xs rule: callback_invocations.induct) simp_all

lemma timers_boot [simp]: "timers (boot t0 pn) = []"
  by (simp add: boot_def)

lemma trace_boot [simp]: "trace (boot t0 pn) = []"
  by (simp add: boot_def)

lemma trace_unmount [simp]: "trace (unmount inst st) = trace st"
  by (simp add: unmount_def clear_timeout_def)

lemma mount_quiescent:
  "timers st = [] \<Longrightarrow>
   mount p nav st =
     (\<lparr>inst_props = p, inst_navigate = nav, inst_timer = next_id st\<rparr>,
      st\<lparr>next_id := Suc (next_id st), timers := [(next_id st, now st + 1500, Outer p nav)]\<rparr>)"
  by (simp add: mount_def set_timeout_def)

lemma effect_run_waits:
  "timers st = [] \<Longrightarrow> d < 1500 \<Longrightarrow>
   advance d (snd (mount p nav st)) =
     st\<lparr>now := now st + d, next_id := Suc (next_id st),
        timers := [(next_id st, now st + 1500, Outer p nav)]\<rparr>"
  by (simp add: mount_quiescent advance_def advance_to_idle)

lemma effect_run_fires:
  "timers st = [] \<Longrightarrow> 1500 \<le> d \<Longrightarrow>
   advance d (snd (mount p nav st)) =
     advance_to (now st + d)
       (snd (timer_callback p nav
              (st\<lparr>next_id := Suc (next_id st), now := now st + 1500, timers := []\<rparr>)))"
  by (simp add: mount_quiescent advance_def
      advance_to_fire [where t = "(next_id st, now st + 1500, Outer p nav)"] fire_Outer)

text \<open>
  A run of the effect that starts in a host with no pending timer, in the two branches
  that schedule no second timer: what it has added to the trace \<open>d\<close> time units later.
\<close>

lemma home_run:
  assumes "timers st = []" and "\<not> truthy r"
  shows "navigate_requests (trace (advance d (snd (mount \<lparr>onComplete = None, redirectTo = r\<rparr> nav st))))
           = navigate_requests (trace st) @ (if 1500 \<le> d then [''/home''] else [])"
proof (cases "1500 \<le> d")
  case True
  obtain x pn1 where c: "nav ''/home'' (pathname st) = (x, pn1)"
    by (cases "nav ''/home'' (pathname st)")
  show ?thesis
    using True assms c
    by (cases x) (simp_all add: effect_run_fires timer_callback_home advance_to_idle)
next
  case False
  then show ?thesis using assms by (simp add: effect_run_waits)
qed

lemma onComplete_run:
  assumes "timers st = []"
  shows "callback_invocations (trace (advance d (snd (mount \<lparr>onComplete = Some f, redirectTo = r\<rparr> nav st))))
           = callback_invocations (trace st) + (if 1500 \<le> d then 1 else 0) \<and>
         navigate_requests (trace (advance d (snd (mount \<lparr>onComplete = Some f, redirectTo = r\<rparr> nav st))))
           = navigate_requests (trace st) \<and>
         href_assignments (trace (advance d (snd (mount \<lparr>onComplete = Some f, redirectTo = r\<rparr> nav st))))
           = href_assignments (trace st)"
proof (cases "1500 \<le> d")
  case True
  obtain x pn1 where c: "f (pathname st) = (x, pn1)"
    by (cases "f (pathname st)")
  show ?thesis
    using True assms c
    by (cases x) (simp_all add: effect_run_fires timer_callback_onComplete advance_to_idle)
next
  case False
  then show ?thesis using assms by (simp add: effect_run_waits)
qed

lemma timers_timer_callback_single:
  "onComplete p \<noteq> None \<or> \<not> truthy (redirectTo p) \<Longrightarrow>
   timers (snd (timer_callback p nav st)) = timers st"
  by (cases "onComplete p")
     (auto simp: timer_callback_def try_catch_def timer_body_def navigate_home_def call_def
        emit_def catch_handler_def split: prod.splits option.splits)

text \<open>In those branches no timer is pending once the callback has run, nor after the cleanup.\<close>

lemma fired_quiescent:
  assumes "timers st = []" and "onComplete p \<noteq> None \<or> \<not> truthy (redirectTo p)"
    and "1500 \<le> d"
  shows "timers (advance d (snd (mount p nav st))) = []"
  using assms by (simp add: effect_run_fires advance_to_idle timers_timer_callback_single)

lemma cleanup_quiescent:
  assumes "timers st = []" and "onComplete p \<noteq> None \<or> \<not> truthy (redirectTo p)"
  shows "timers (unmount (fst (mount p nav st)) (advance d (snd (mount p nav st)))) = []"
proof (cases "1500 \<le> d")
  case True
  then show ?thesis
    using assms
    by (simp add: effect_run_fires advance_to_idle unmount_def clear_timeout_def
        timers_timer_callback_single)
next
  case False
  then have w: "advance d (snd (mount p nav st)) =
     st\<lparr>now := now st + d, next_id := Suc (next_id st),
        timers := [(next_id st, now st + 1500, Outer p nav)]\<rparr>"
    using assms(1) by (simp add: effect_run_waits)
  have h: "inst_timer (fst (mount p nav st)) = next_id st"
    using assms(1) by (simp add: mount_quiescent)
  show ?thesis
    unfolding w by (simp add: unmount_def clear_timeout_def h)
qed

lemma first_render_parts:
  "snd (first_render ids p nav st) = snd (mount p nav st)"
  "fiber_instance (fst (first_render ids p nav st)) = fst (mount p nav st)"
  "fiber_deps (fst (first_render ids p nav st)) = deps_of ids p"
  by (simp_all add: first_render_def split: prod.splits)

lemma rerender_same:
  "deps_of ids p = fiber_deps fb \<Longrightarrow> rerender ids p nav fb st = (fb, st)"
  by (simp add: rerender_def)

lemma rerender_changed:
  "deps_of ids p \<noteq> fiber_deps fb \<Longrightarrow>
   snd (rerender ids p nav fb st) = snd (mount p nav (unmount (fiber_instance fb) st))"
  by (simp add: rerender_def split: prod.splits)

lemma deps_of_no_callback:
  "deps_of ids \<lparr>onComplete = None, redirectTo = r\<rparr> = (None, r, id_navigate ids)"
  by (simp add: deps_of_def)

lemma deps_of_callback:
  "deps_of ids \<lparr>onComplete = Some f, redirectTo = r\<rparr> =
     (Some (id_onComplete ids), r, id_navigate ids)"
  by (simp add: deps_of_def)

text \<open>The default branch: the first run, a re-render that keeps the array, one that does not.\<close>

lemma home_first_run:
  "navigate_requests (trace (advance d
      (snd (mount \<lparr>onComplete = None, redirectTo = None\<rparr> nav (boot t0 pn))))) =
     (if 1500 \<le> d then [''/home''] else [])"
  using home_run [of "boot t0 pn" None d nav] by simp

lemma home_rerender_same:
  "navigate_requests (trace (advance d2
      (snd (rerender ids \<lparr>onComplete = None, redirectTo = None\<rparr> nav'
        (fst (first_render ids \<lparr>onComplete = None, redirectTo = None\<rparr> nav (boot t0 pn)))
        (advance (1500 + d1)
          (snd (first_render ids \<lparr>onComplete = None, redirectTo = None\<rparr> nav (boot t0 pn)))))))) =
     [''/home'']"
proof -
  let ?s0 = "snd (mount \<lparr>onComplete = None, redirectTo = None\<rparr> nav (boot t0 pn))"
  have q: "timers (advance (1500 + d1) ?s0) = []"
    by (rule fired_quiescent) simp_all
  show ?thesis
    by (simp add: rerender_same first_render_parts advance_no_timers [OF q] home_first_run)
qed

lemma home_rerender_changed:
  assumes "id_navigate ids' \<noteq> id_navigate ids"
  shows "navigate_requests (trace (advance d2
      (snd (rerender ids' \<lparr>onComplete = None, redirectTo = None\<rparr> nav'
        (fst (first_render ids \<lparr>onComplete = None, redirectTo = None\<rparr> nav (boot t0 pn)))
        (advance d1
          (snd (first_render ids \<lparr>onComplete = None, redirectTo = None\<rparr> nav (boot t0 pn)))))))) =
     (if 1500 \<le> d1 then [''/home''] else []) @ (if 1500 \<le> d2 then [''/home''] else [])"
proof -
  let ?P = "\<lparr>onComplete = None, redirectTo = None\<rparr>"
  let ?fb = "fst (first_render ids ?P nav (boot t0 pn))"
  let ?s0 = "snd (mount ?P nav (boot t0 pn))"
  let ?u = "unmount (fst (mount ?P nav (boot t0 pn))) (advance d1 ?s0)"
  have ch: "deps_of ids' ?P \<noteq> fiber_deps ?fb"
    using assms by (simp add: first_render_parts deps_of_no_callback)
  have qu: "timers ?u = []"
    by (rule cleanup_quiescent) simp_all
  have "navigate_requests (trace (advance d2 (snd (mount ?P nav' ?u)))) =
      navigate_requests (trace ?u) @ (if 1500 \<le> d2 then [''/home''] else [])"
    using home_run [OF qu, of None d2 nav'] by simp
  then show ?thesis
    by (simp add: rerender_changed [OF ch] first_render_parts home_first_run)
qed

text \<open>The callback branch, likewise.\<close>

lemma onComplete_first_run:
  "callback_invocations (trace (advance d
      (snd (mount \<lparr>onComplete = Some f, redirectTo = r\<rparr> nav (boot t0 pn))))) =
     (if 1500 \<le> d then 1 else 0) \<and>
   navigate_requests (trace (advance d
      (snd (mount \<lparr>onComplete = Some f, redirectTo = r\<rparr> nav (boot t0 pn))))) = [] \<and>
   href_assignments (trace (advance d
      (snd (mount \<lparr>onComplete = Some f, redirectTo = r\<rparr> nav (boot t0 pn))))) = []"
  using onComplete_run [of "boot t0 pn" d f r nav] by simp

lemma onComplete_hash:
  "hash_assignments (trace (advance (1500 + d)
      (snd (mount \<lparr>onComplete = Some f, redirectTo = r\<rparr> nav (boot t0 pn))))) =
     (case fst (f pn) of None \<Rightarrow> [] | Some e \<Rightarrow> [''#/home''])"
proof -
  obtain x pn1 where fx: "f pn = (x, pn1)" by (cases "f pn")
  show ?thesis
    using fx by (cases x)
      (simp_all add: advance_past_expiry timer_callback_onComplete at_expiry_def advance_to_idle)
qed

lemma onComplete_rerender_same:
  "callback_invocations (trace (advance d2
      (snd (rerender ids \<lparr>onComplete = Some f, redirectTo = r\<rparr> nav'
        (fst (first_render ids \<lparr>onComplete = Some f, redirectTo = r\<rparr> nav (boot t0 pn)))
        (advance (1500 + d1)
          (snd (first_render ids \<lparr>onComplete = Some f, redirectTo = r\<rparr> nav (boot t0 pn)))))))) = 1"
proof -
  let ?s0 = "snd (mount \<lparr>onComplete = Some f, redirectTo = r\<rparr> nav (boot t0 pn))"
  have q: "timers (advance (1500 + d1) ?s0) = []"
    by (rule fired_quiescent) simp_all
  show ?thesis
    by (simp add: rerender_same first_render_parts advance_no_timers [OF q] onComplete_first_run)
qed

lemma onComplete_rerender_changed:
  assumes "id_onComplete ids' \<noteq> id_onComplete ids"
  shows "callback_invocations (trace (advance d2
      (snd (rerender ids' \<lparr>onComplete = Some f', redirectTo = r'\<rparr> nav'
        (fst (first_render ids \<lparr>onComplete = Some f, redirectTo = r\<rparr> nav (boot t0 pn)))
        (advance d1
          (snd (first_render ids \<lparr>onComplete = Some f, redirectTo = r\<rparr> nav (boot t0 pn)))))))) =
      (if 1500 \<le> d1 then 1 else 0) + (if 1500 \<le> d2 then 1 else 0) \<and>
    navigate_requests (trace (advance d2
      (snd (rerender ids' \<lparr>onComplete = Some f', redirectTo = r'\<rparr> nav'
        (fst (first_render ids \<lparr>onComplete = Some f, redirectTo = r\<rparr> nav (boot t0 pn)))
        (advance d1
          (snd (first_render ids \<lparr>onComplete = Some f, redirectTo = r\<rparr> nav (boot t0 pn)))))))) = []"
proof -
  let ?P = "\<lparr>onComplete = Some f, redirectTo = r\<rparr>"
  let ?P' = "\<lparr>onComplete = Some f', redirectTo = r'\<rparr>"
  let ?fb = "fst (first_render ids ?P nav (boot t0 pn))"
  let ?s0 = "snd (mount ?P nav (boot t0 pn))"
  let ?u = "unmount (fst (mount ?P nav (boot t0 pn))) (advance d1 ?s0)"
  have ch: "deps_of ids' ?P' \<noteq> fiber_deps ?fb"
    using assms by (simp add: first_render_parts deps_of_callback)
  have qu: "timers ?u = []"
    by (rule cleanup_quiescent) simp_all
  show ?thesis
    using onComplete_run [OF qu, of d2 f' r' nav']
    by (simp add: rerender_changed [OF ch] first_render_parts onComplete_first_run)
qed

section \<open>The properties\<close>

text \<open>
  In every theorem below the instance is mounted at an arbitrary time \<open>t0\<close> in a freshly
  booted host whose pathname is \<open>pn\<close>; \<open>nav\<close> is the function that \<^verbatim>\<open>useNavigate\<close>
  returned. \<open>relocate pn'\<close> stands for whatever the router, the user or the browser did
  to the pathname between the expiry of the outer timer and the fallback check. A run
  written with \<open>mount\<close> alone is a run in which the effect is not run again; where a
  re-render matters the run is written with \<open>first_render\<close> and \<open>rerender\<close>, with the
  identities \<open>ids\<close> of the first render and \<open>ids'\<close> of the later one.
\<close>




text \<open>
  C2, as amended. An instance mounted with \<open>onComplete\<close> provided, whatever \<open>redirectTo\<close>
  is. As long as the effect is not run again, at every time from the expiry of the
  1500-unit delay on the callback has been invoked exactly once, the navigation service
  has not been requested, the location has not been assigned a reference and no fallback
  check is pending; the fragment has been assigned \<open>#/home\<close> once if the callback threw,
  and not at all if it returned. A re-render that keeps the dependency array leaves the
  count at one. A re-render with a new \<open>onComplete\<close> object, \<open>d1\<close> time units after the
  mount, runs the cleanup and the effect again: the callback has then been invoked once
  for the first run if that had expired, and once more when the new delay has expired,
  and the navigation service is still not requested.
\<close>

theorem onComplete_once_per_effect_run:
  "callback_invocations (trace (advance (1500 + d)
      (snd (mount \<lparr>onComplete = Some f, redirectTo = r\<rparr> nav (boot t0 pn))))) = 1 \<and>
   navigate_requests (trace (advance (1500 + d)
      (snd (mount \<lparr>onComplete = Some f, redirectTo = r\<rparr> nav (boot t0 pn))))) = [] \<and>
   href_assignments (trace (advance (1500 + d)
      (snd (mount \<lparr>onComplete = Some f, redirectTo = r\<rparr> nav (boot t0 pn))))) = [] \<and>
   timers (advance (1500 + d)
      (snd (mount \<lparr>onComplete = Some f, redirectTo = r\<rparr> nav (boot t0 pn)))) = [] \<and>
   hash_assignments (trace (advance (1500 + d)
      (snd (mount \<lparr>onComplete = Some f, redirectTo = r\<rparr> nav (boot t0 pn))))) =
     (case fst (f pn) of None \<Rightarrow> [] | Some e \<Rightarrow> [''#/home'']) \<and>
   callback_invocations (trace (advance d2
      (snd (rerender ids \<lparr>onComplete = Some f, redirectTo = r\<rparr> nav'
        (fst (first_render ids \<lparr>onComplete = Some f, redirectTo = r\<rparr> nav (boot t0 pn)))
        (advance (1500 + d1)
          (snd (first_render ids \<lparr>onComplete = Some f, redirectTo = r\<rparr> nav (boot t0 pn)))))))) = 1 \<and>
   (id_onComplete ids' \<noteq> id_onComplete ids \<longrightarrow>
    callback_invocations (trace (advance d2
      (snd (rerender ids' \<lparr>onComplete = Some f', redirectTo = r'\<rparr> nav'
        (fst (first_render ids \<lparr>onComplete = Some f, redirectTo = r\<rparr> nav (boot t0 pn)))
        (advance d1
          (snd (first_render ids \<lparr>onComplete = Some f, redirectTo = r\<rparr> nav (boot t0 pn)))))))) =
      (if 1500 \<le> d1 then 1 else 0) + (if 1500 \<le> d2 then 1 else 0) \<and>
    navigate_requests (trace (advance d2
      (snd (rerender ids' \<lparr>onComplete = Some f', redirectTo = r'\<rparr> nav'
        (fst (first_render ids \<lparr>onComplete = Some f, redirectTo = r\<rparr> nav (boot t0 pn)))
        (advance d1
          (snd (first_render ids \<lparr>onComplete = Some f, redirectTo = r\<rparr> nav (boot t0 pn)))))))) = [])"
proof -
  let ?s0 = "snd (mount \<lparr>onComplete = Some f, redirectTo = r\<rparr> nav (boot t0 pn))"
  have q: "timers (advance (1500 + d) ?s0) = []"
    by (rule fired_quiescent) simp_all
  show ?thesis
    using onComplete_first_run [of "1500 + d" f r nav t0 pn] q
      onComplete_hash [of d f r nav t0 pn]
      onComplete_rerender_same [of d2 ids f r nav' nav t0 pn d1]
      onComplete_rerender_changed [of ids' ids d2 f' r' nav' f r nav t0 pn d1]
    by simp
qed

text \<open>
  Witness for C2: the parent passes a new callback object 700 time units after the mount.
  The first timer is cleared before it expires; 1500 time units later the callback has
  been invoked once.
\<close>

theorem onComplete_once_per_effect_run_witness:
  "id_onComplete \<lparr>id_onComplete = 1, id_navigate = 0\<rparr> \<noteq>
     id_onComplete \<lparr>id_onComplete = 0, id_navigate = 0\<rparr> \<and>
   callback_invocations (trace (advance 1500
      (snd (rerender \<lparr>id_onComplete = 1, id_navigate = 0\<rparr>
        \<lparr>onComplete = Some quiet_callback, redirectTo = None\<rparr> steady_navigate
        (fst (first_render \<lparr>id_onComplete = 0, id_navigate = 0\<rparr>
                \<lparr>onComplete = Some quiet_callback, redirectTo = None\<rparr> steady_navigate
                (boot 0 ''/'')))
        (advance 700
          (snd (first_render \<lparr>id_onComplete = 0, id_navigate = 0\<rparr>
                  \<lparr>onComplete = Some quiet_callback, redirectTo = None\<rparr> steady_navigate
                  (boot 0 ''/'')))))))) = 1"
  using onComplete_once_per_effect_run
    [where ids' = "\<lparr>id_onComplete = 1, id_navigate = 0\<rparr>"
       and ids = "\<lparr>id_onComplete = 0, id_navigate = 0\<rparr>"
       and f = quiet_callback and f' = quiet_callback and r = None and r' = None
       and nav = steady_navigate and nav' = steady_navigate
       and ?t0.0 = 0 and pn = "''/''" and ?d1.0 = 700 and ?d2.0 = 1500]
  by simp

text \<open>
  Counterexample to C2 as stated, on two inputs. A callback that throws: at the expiry
  the catch block has assigned the fragment \<open>#/home\<close>, a navigation by the location.
  A parent that passes a new callback object when the first delay has expired: 1500 time
  units later the callback has been invoked twice.
\<close>

theorem onComplete_throwing_or_rearmed:
  "hash_assignments (trace (advance 1500
      (snd (mount \<lparr>onComplete = Some failing_callback, redirectTo = None\<rparr> steady_navigate
             (boot 0 ''/''))))) = [''#/home''] \<and>
   callback_invocations (trace (advance 1500
      (snd (rerender \<lparr>id_onComplete = 1, id_navigate = 0\<rparr>
        \<lparr>onComplete = Some quiet_callback, redirectTo = None\<rparr> steady_navigate
        (fst (first_render \<lparr>id_onComplete = 0, id_navigate = 0\<rparr>
                \<lparr>onComplete = Some quiet_callback, redirectTo = None\<rparr> steady_navigate
                (boot 0 ''/'')))
        (advance 1500
          (snd (first_render \<lparr>id_onComplete = 0, id_navigate = 0\<rparr>
                  \<lparr>onComplete = Some quiet_callback, redirectTo = None\<rparr> steady_navigate
                  (boot 0 ''/'')))))))) = 2"
proof -
  have h: "hash_assignments (trace (advance (1500 + 0)
      (snd (mount \<lparr>onComplete = Some failing_callback, redirectTo = None\<rparr> steady_navigate
             (boot 0 ''/''))))) = [''#/home'']"
    unfolding onComplete_hash by (simp add: failing_callback_def)
  have ne: "id_onComplete \<lparr>id_onComplete = 1, id_navigate = 0\<rparr> \<noteq>
      id_onComplete \<lparr>id_onComplete = 0, id_navigate = 0\<rparr>"
    by simp
  show ?thesis
    using h onComplete_rerender_changed [OF ne, of 1500 quiet_callback None steady_navigate
        quiet_callback None steady_navigate 0 "''/''" 1500]
    by simp
qed

text \<open>
  C3, as amended. An instance mounted with neither \<open>onComplete\<close> nor \<open>redirectTo\<close>. As
  long as the effect is not run again, at every time from the expiry of the 1500-unit
  delay on the navigation service has been requested exactly once by the component, with
  the path \<open>/home\<close>, whether the request returns or throws. A re-render that keeps the
  dependency array leaves it so. A re-render in which \<open>useNavigate\<close> has returned a new
  function, \<open>d1\<close> time units after the mount, runs the cleanup and the effect again:
  \<open>/home\<close> has then been requested once for the first run if that had expired, and once
  more when the new delay has expired.
\<close>

theorem default_navigates_home_once_per_effect_run:
  "navigate_requests (trace (advance (1500 + d)
      (snd (mount \<lparr>onComplete = None, redirectTo = None\<rparr> nav (boot t0 pn))))) = [''/home''] \<and>
   navigate_requests (trace (advance d2
      (snd (rerender ids \<lparr>onComplete = None, redirectTo = None\<rparr> nav'
        (fst (first_render ids \<lparr>onComplete = None, redirectTo = None\<rparr> nav (boot t0 pn)))
        (advance (1500 + d1)
          (snd (first_render ids \<lparr>onComplete = None, redirectTo = None\<rparr> nav (boot t0 pn)))))))) =
     [''/home''] \<and>
   (id_navigate ids' \<noteq> id_navigate ids \<longrightarrow>
    navigate_requests (trace (advance d2
      (snd (rerender ids' \<lparr>onComplete = None, redirectTo = None\<rparr> nav'
        (fst (first_render ids \<lparr>onComplete = None, redirectTo = None\<rparr> nav (boot t0 pn)))
        (advance d1
          (snd (first_render ids \<lparr>onComplete = None, redirectTo = None\<rparr> nav (boot t0 pn)))))))) =
     (if 1500 \<le> d1 then [''/home''] else []) @ (if 1500 \<le> d2 then [''/home''] else []))"
  using home_first_run [of "1500 + d" nav t0 pn]
    home_rerender_same [of d2 ids nav' nav t0 pn d1]
    home_rerender_changed [of ids' ids d2 nav' nav t0 pn d1]
  by simp

text \<open>
  Witness for C3: \<open>useNavigate\<close> returns a new function 1000 time units after the mount.
  The first timer is cleared before it expires; 1500 time units later \<open>/home\<close> has been
  requested once.
\<close>

theorem default_navigates_home_once_per_effect_run_witness:
  "id_navigate \<lparr>id_onComplete = 0, id_navigate = 1\<rparr> \<noteq>
     id_navigate \<lparr>id_onComplete = 0, id_navigate = 0\<rparr> \<and>
   navigate_requests (trace (advance 1500
      (snd (rerender \<lparr>id_onComplete = 0, id_navigate = 1\<rparr>
        \<lparr>onComplete = None, redirectTo = None\<rparr> steady_navigate
        (fst (first_render \<lparr>id_onComplete = 0, id_navigate = 0\<rparr>
                \<lparr>onComplete = None, redirectTo = None\<rparr> steady_navigate (boot 0 ''/'')))
        (advance 1000
          (snd (first_render \<lparr>id_onComplete = 0, id_navigate = 0\<rparr>
                  \<lparr>onComplete = None, redirectTo = None\<rparr> steady_navigate
                  (boot 0 ''/'')))))))) = [''/home'']"
  using default_navigates_home_once_per_effect_run
    [where ids' = "\<lparr>id_onComplete = 0, id_navigate = 1\<rparr>"
       and ids = "\<lparr>id_onComplete = 0, id_navigate = 0\<rparr>"
       and nav = steady_navigate and nav' = steady_navigate
       and ?t0.0 = 0 and pn = "''/''" and ?d1.0 = 1000 and ?d2.0 = 1500]
  by simp

text \<open>
  Counterexample to C3 as stated: the instance stays mounted after the route change and
  \<open>useNavigate\<close> returns a new function in the re-render at the expiry. The effect runs
  again, and 1500 time units later \<open>/home\<close> has been requested twice.
\<close>

theorem default_rearmed_navigates_home_twice:
  "navigate_requests (trace (advance 1500
      (snd (rerender \<lparr>id_onComplete = 0, id_navigate = 1\<rparr>
        \<lparr>onComplete = None, redirectTo = None\<rparr> steady_navigate
        (fst (first_render \<lparr>id_onComplete = 0, id_navigate = 0\<rparr>
                \<lparr>onComplete = None, redirectTo = None\<rparr> steady_navigate (boot 0 ''/'')))
        (advance 1500
          (snd (first_render \<lparr>id_onComplete = 0, id_navigate = 0\<rparr>
                  \<lparr>onComplete = None, redirectTo = None\<rparr> steady_navigate
                  (boot 0 ''/'')))))))) = [''/home'', ''/home'']"
proof -
  have ne: "id_navigate \<lparr>id_onComplete = 0, id_navigate = 1\<rparr> \<noteq>
      id_navigate \<lparr>id_onComplete = 0, id_navigate = 0\<rparr>"
    by simp
  show ?thesis
    using home_rerender_changed [OF ne, of 1500 steady_navigate steady_navigate 0 "''/''" 1500]
    by simp
qed

text \<open>
  C4. Whenever the try block of the outer callback raises an exception \<open>e\<close> (from the
  invocation of \<open>onComplete\<close> or from a navigation request; by \<open>try_catch_catches\<close> the
  same holds of any guarded body), the callback itself returns normally, so the event loop
  records nothing uncaught; the fragment is set to \<open>#/home\<close> once, and exactly one log
  entry, carrying \<open>e\<close>, is written.
\<close>

theorem post_timer_exception_caught:
  "timer_body p nav st = (Some e, st1) \<Longrightarrow>
   timer_callback p nav st =
     (None, emit (Assign_hash ''#/home'')
              (emit (Console_error ''Navigation error in SplashScreen'' e) st1)) \<and>
   uncaught (fire (h, due, Outer p nav) st) = uncaught st \<and>
   hash_assignments (trace (snd (timer_callback p nav st))) =
     hash_assignments (trace st) @ [''#/home''] \<and>
   log_entries (trace (snd (timer_callback p nav st))) =
     log_entries (trace st) @ [(''Navigation error in SplashScreen'', e)]"
proof -
  assume b: "timer_body p nav st = (Some e, st1)"
  have c: "timer_callback p nav st =
     (None, emit (Assign_hash ''#/home'')
              (emit (Console_error ''Navigation error in SplashScreen'' e) st1))"
    unfolding timer_callback_def using b by (rule try_catch_catches)
  have u: "uncaught (fire (h, due, Outer p nav) st) = uncaught st"
    by (simp add: fire_Outer uncaught_timer_callback)
  show ?thesis
    using c u timer_body_quiet [OF b] by (simp add: emit_def)
qed

text \<open>Witness for C4: the default branch with a navigation service that throws.\<close>

theorem post_timer_exception_caught_witness:
  "timer_body \<lparr>onComplete = None, redirectTo = None\<rparr> failing_navigate (at_expiry 0 ''/'') =
     (Some ''no router'', emit (Navigate ''/home'') (at_expiry 0 ''/'')) \<and>
   timer_callback \<lparr>onComplete = None, redirectTo = None\<rparr> failing_navigate (at_expiry 0 ''/'') =
     (None, \<lparr>now = 1500, next_id = 1, timers = [], pathname = ''/'',
        trace = [Navigate ''/home'',
          Console_error ''Navigation error in SplashScreen'' ''no router'',
          Assign_hash ''#/home''], uncaught = []\<rparr>)"
proof -
  have b: "timer_body \<lparr>onComplete = None, redirectTo = None\<rparr> failing_navigate
             (at_expiry 0 ''/'') =
     (Some ''no router'', emit (Navigate ''/home'') (at_expiry 0 ''/''))"
    by (simp add: timer_body_def navigate_home_def call_def failing_navigate_def emit_def
        at_expiry_def)
  show ?thesis
    using b post_timer_exception_caught [OF b] by (simp add: emit_def at_expiry_def)
qed

text \<open>
  C5. The cleanup clears the outer timer only. An instance with \<open>redirectTo = "/menu"\<close>
  that is unmounted when the outer timer has just fired leaves the fallback check
  pending, and the check runs 300 time units later, after the unmount, and assigns the
  location.
\<close>

theorem inner_timer_survives_unmount:
  "timers (unmount
      (fst (mount \<lparr>onComplete = None, redirectTo = Some ''/menu''\<rparr> steady_navigate
              (boot 0 ''/'')))
      (advance 1500
        (snd (mount \<lparr>onComplete = None, redirectTo = Some ''/menu''\<rparr> steady_navigate
                (boot 0 ''/'')))))
     = [(1, 1800, Inner ''menu'')] \<and>
   trace (advance 300
     (unmount
        (fst (mount \<lparr>onComplete = None, redirectTo = Some ''/menu''\<rparr> steady_navigate
                (boot 0 ''/'')))
        (advance 1500
          (snd (mount \<lparr>onComplete = None, redirectTo = Some ''/menu''\<rparr> steady_navigate
                  (boot 0 ''/''))))))
     = [Navigate ''menu'', Assign_href ''#/menu'']"
proof -
  let ?m = "mount \<lparr>onComplete = None, redirectTo = Some ''/menu''\<rparr> steady_navigate
              (boot 0 ''/'')"
  have s1: "advance 1500 (snd ?m) =
      \<lparr>now = 1500, next_id = 2, timers = [(1, 1800, Inner ''menu'')], pathname = ''/'',
        trace = [Navigate ''menu''], uncaught = []\<rparr>"
    by (simp add: redirect_at_expiry steady_navigate_def)
  have h: "inst_timer (fst ?m) = 0"
    by (simp add: mount_boot)
  have s2: "unmount (fst ?m) (advance 1500 (snd ?m)) =
      \<lparr>now = 1500, next_id = 2, timers = [(1, 1800, Inner ''menu'')], pathname = ''/'',
        trace = [Navigate ''menu''], uncaught = []\<rparr>"
    unfolding s1 by (simp add: unmount_def clear_timeout_def h)
  show ?thesis
    unfolding s2 by (simp add: inner_pending sublist_Cons_right)
qed

text \<open>
  C6. An instance that is unmounted \<open>d1 < 1500\<close> time units after its mount: however
  much time passes afterwards and wherever the location goes, the component never invokes
  \<open>onComplete\<close>, never requests a navigation and never assigns the location (its trace
  stays empty), and none of its timers is pending.
\<close>

theorem unmount_before_expiry_silent:
  "d1 < 1500 \<Longrightarrow>
   trace (advance d2 (relocate pn' (unmount (fst (mount p nav (boot t0 pn)))
      (advance d1 (snd (mount p nav (boot t0 pn))))))) = [] \<and>
   timers (advance d2 (relocate pn' (unmount (fst (mount p nav (boot t0 pn)))
      (advance d1 (snd (mount p nav (boot t0 pn))))))) = []"
  by (simp add: advance_before_expiry mount_boot unmount_def clear_timeout_def relocate_def
      advance_def advance_to_idle)

text \<open>Witness for C6: unmounted one time unit before the expiry.\<close>

theorem unmount_before_expiry_silent_witness:
  "(1499::nat) < 1500 \<and>
   trace (advance 5000 (relocate ''/menu''
     (unmount
        (fst (mount \<lparr>onComplete = None, redirectTo = Some ''/menu''\<rparr> steady_navigate
                (boot 0 ''/'')))
        (advance 1499
          (snd (mount \<lparr>onComplete = None, redirectTo = Some ''/menu''\<rparr> steady_navigate
                  (boot 0 ''/''))))))) = []"
  using unmount_before_expiry_silent [of 1499 5000 "''/menu''"
      "\<lparr>onComplete = None, redirectTo = Some ''/menu''\<rparr>" steady_navigate 0 "''/''"]
  by simp

text \<open>
  C7, as amended. In a browser, the dark-mode flag is true exactly when the root element
  carries the dark marker, or when the stored theme preference is absent or is the empty
  string and the system reports a dark-appearance preference.
\<close>

theorem isDarkMode_flag:
  "isDarkMode (Some b) \<longleftrightarrow>
     root_has_dark b \<or>
     ((stored_theme b = None \<or> stored_theme b = Some []) \<and> prefers_dark b)"
  by (cases "stored_theme b") (auto simp: isDarkMode_def)

text \<open>
  Counterexample to C7 as stated: a theme preference is stored and is the empty string,
  the root carries no dark marker and the system prefers dark. The flag is true, where
  the claim makes it false.
\<close>

theorem isDarkMode_empty_stored_theme:
  "isDarkMode (Some \<lparr>root_has_dark = False, stored_theme = Some [], prefers_dark = True\<rparr>) \<noteq>
     (root_has_dark \<lparr>root_has_dark = False, stored_theme = Some [], prefers_dark = True\<rparr> \<or>
      (stored_theme \<lparr>root_has_dark = False, stored_theme = Some [], prefers_dark = True\<rparr>
         = None \<and>
       prefers_dark \<lparr>root_has_dark = False, stored_theme = Some [], prefers_dark = True\<rparr>))"
  by (simp add: isDarkMode_def)

text \<open>
  C8. An instance mounted with \<open>onComplete\<close> absent and \<open>redirectTo = ""\<close>: at every
  time from the expiry on, the host is in the very state it is in when \<open>redirectTo\<close> is
  absent; the one navigation request is to \<open>/home\<close> and no fallback check is pending.
\<close>

theorem empty_redirect_as_absent:
  "advance (1500 + d)
     (snd (mount \<lparr>onComplete = None, redirectTo = Some ''''\<rparr> nav (boot t0 pn))) =
   advance (1500 + d)
     (snd (mount \<lparr>onComplete = None, redirectTo = None\<rparr> nav (boot t0 pn))) \<and>
   navigate_requests (trace (advance (1500 + d)
      (snd (mount \<lparr>onComplete = None, redirectTo = Some ''''\<rparr> nav (boot t0 pn))))) = [''/home''] \<and>
   timers (advance (1500 + d)
      (snd (mount \<lparr>onComplete = None, redirectTo = Some ''''\<rparr> nav (boot t0 pn)))) = []"
proof -
  obtain x pn1 where c: "nav ''/home'' pn = (x, pn1)" by (cases "nav ''/home'' pn")
  show ?thesis
    using c by (cases x)
      (simp_all add: advance_past_expiry timer_callback_home at_expiry_def advance_to_idle)
qed

text \<open>
  C9. An instance mounted with \<open>onComplete\<close> absent and \<open>redirectTo = "/"\<close>: whatever
  the pathname is after the expiry and however much time passes, the location is never
  assigned a reference.
\<close>

theorem root_redirect_never_assigns:
  "href_assignments (trace (advance d (relocate pn'
     (advance 1500
        (snd (mount \<lparr>onComplete = None, redirectTo = Some ''/''\<rparr> nav (boot t0 pn))))))) = []"
proof -
  obtain x pn1 where c: "nav [] pn = (x, pn1)" by (cases "nav [] pn")
  show ?thesis
  proof (cases x)
    case None
    then show ?thesis
      using c by (simp add: redirect_at_expiry relocate_def inner_pending)
  next
    case (Some e)
    then show ?thesis
      using c by (simp add: redirect_at_expiry relocate_def advance_no_timers)
  qed
qed

text \<open>
  C10. An instance mounted with \<open>onComplete\<close> absent and \<open>redirectTo = r\<close>: if the
  pathname \<open>pn'\<close> contains the normalized path, the fallback check returns the state it
  was given; and over the whole run, \<open>d\<close> time units after the expiry (whether or not
  the check has run by then) the trace is what it was at the expiry and the pathname is
  still \<open>pn'\<close>.
\<close>

theorem fallback_check_frame:
  "sublist (strip_leading_slash r) pn' \<Longrightarrow>
   fallback_check (strip_leading_slash r) (relocate pn' st) = (None, relocate pn' st) \<and>
   trace (advance d (relocate pn'
     (advance 1500
        (snd (mount \<lparr>onComplete = None, redirectTo = Some r\<rparr> nav (boot t0 pn)))))) =
   trace (advance 1500
     (snd (mount \<lparr>onComplete = None, redirectTo = Some r\<rparr> nav (boot t0 pn)))) \<and>
   pathname (advance d (relocate pn'
     (advance 1500
        (snd (mount \<lparr>onComplete = None, redirectTo = Some r\<rparr> nav (boot t0 pn)))))) = pn'"
proof (cases "r = []")
  case True
  assume "sublist (strip_leading_slash r) pn'"
  obtain x pn1 where c: "nav ''/home'' pn = (x, pn1)" by (cases "nav ''/home'' pn")
  show ?thesis
    using True c unfolding advance_zero_past advance_past_expiry
    by (cases x) (simp_all add: timer_callback_home at_expiry_def advance_to_idle
        relocate_def advance_no_timers fallback_check_def indexOf_sublist)
next
  case False
  assume s: "sublist (strip_leading_slash r) pn'"
  obtain x pn1 where c: "nav (strip_leading_slash r) pn = (x, pn1)"
    by (cases "nav (strip_leading_slash r) pn")
  show ?thesis
    using False c s
    by (cases x) (simp_all add: redirect_at_expiry relocate_def inner_pending advance_no_timers
        fallback_check_def indexOf_sublist)
qed

text \<open>Witness for C10: the pathname \<open>/menu/burgers\<close> contains \<open>menu\<close>.\<close>

theorem fallback_check_frame_witness:
  "sublist (strip_leading_slash ''/menu'') ''/menu/burgers'' \<and>
   trace (advance 300 (relocate ''/menu/burgers''
     (advance 1500
        (snd (mount \<lparr>onComplete = None, redirectTo = Some ''/menu''\<rparr> steady_navigate
                (boot 0 ''/'')))))) = [Navigate ''menu'']"
proof -
  have s: "sublist (strip_leading_slash ''/menu'') ''/menu/burgers''"
    by (simp add: sublist_Cons_right)
  have e: "trace (advance 1500
        (snd (mount \<lparr>onComplete = None, redirectTo = Some ''/menu''\<rparr> steady_navigate
                (boot 0 ''/'')))) = [Navigate ''menu'']"
    by (simp add: redirect_at_expiry steady_navigate_def)
  show ?thesis
    using s e fallback_check_frame [OF s, of _ 300 steady_navigate 0 "''/''"] by simp
qed

end
